theory Spec2Isabelle
  imports Main "HOL-Library.Sublist"
begin

section \<open>Network sector analysis dashboard: table and image extraction (app.py)\<close>

text \<open>
  The helper functions of \<^verbatim>\<open>app.py\<close> are embedded as HOL functions. A pandas
  DataFrame read with \<^verbatim>\<open>header=None\<close> is a list of rows of cells with the default
  \<^verbatim>\<open>RangeIndex\<close>, so the label that \<^verbatim>\<open>iterrows\<close> yields is the row position.
  Everything the spreadsheet and UI libraries do is an input of the model: the
  stringification of a row (\<^verbatim>\<open>Series.to_string\<close>), of a header value
  (\<^verbatim>\<open>astype(str)\<close>), the opening of a workbook and the parsing of a sheet are
  parameters. What the code reports through \<^verbatim>\<open>st.error\<close>, \<^verbatim>\<open>st.info\<close> and
  \<^verbatim>\<open>st.warning\<close> is returned as a value, and an exception that leaves a function
  is the \<open>Inl\<close> branch of its result.
\<close>

subsection \<open>Values\<close>

text \<open>The exceptions that occur, all of them subclasses of \<^verbatim>\<open>Exception\<close>.\<close>

datatype py_error =
    IndexError
  | KeyError
  | AttributeError
  | ValueError
  | OtherError string

text \<open>A cell of a raw sheet: empty (pandas \<^verbatim>\<open>NaN\<close>), a number or a text.\<close>

datatype cell = Null | Number int | Text string

type_synonym row = "cell list"
type_synonym grid = "row list"

text \<open>Python's \<^verbatim>\<open>needle in hay\<close> on strings: contiguous, exact (case-sensitive) containment.\<close>

definition py_in :: "string \<Rightarrow> string \<Rightarrow> bool" where
  "py_in needle hay = sublist needle hay"

text \<open>Python's \<^verbatim>\<open>str(n)\<close> for a natural number, as used by the f-string of the dedup loop.\<close>

definition digit_char :: "nat \<Rightarrow> char" where
  "digit_char d = char_of (48 + d)"

function str_nat :: "nat \<Rightarrow> string" where
  "str_nat n = (if n < 10 then [digit_char n] else str_nat (n div 10) @ [digit_char (n mod 10)])"
  by pat_completeness auto
termination
  by (relation "measure id") auto

declare str_nat.simps [simp del]

subsection \<open>\<^verbatim>\<open>extract_images_from_sheet\<close>\<close>

text \<open>
  An embedded image as openpyxl gives it: \<^verbatim>\<open>image.anchor._from\<close> carries the row and
  the column of the anchor cell. An absolute anchor has no \<^verbatim>\<open>_from\<close>, and reading it
  raises \<^verbatim>\<open>AttributeError\<close>: \<open>anchor_from\<close> is \<open>None\<close> for such an image.
\<close>

record 'r image =
  anchor_from :: "(int \<times> int) option"
  ref :: 'r

text \<open>The dictionary \<^verbatim>\<open>images\<close>, keyed by slot name.\<close>

type_synonym 'r images = "string \<rightharpoonup> 'r"

text \<open>
  The body of the \<^verbatim>\<open>for image in sheet._images\<close> loop. The result is the dictionary
  when the loop stops, and the exception that stopped it, if any.
\<close>

fun classify_images :: "'r images \<Rightarrow> 'r image list \<Rightarrow> 'r images \<times> py_error option" where
  "classify_images images [] = (images, None)"
| "classify_images images (img # rest) =
     (case anchor_from img of
        None \<Rightarrow> (images, Some AttributeError)
      | Some (row, col) \<Rightarrow>
          if images ''plot1'' = None \<and> row \<ge> 19 \<and> col = 0
          then classify_images (images(''plot1'' \<mapsto> ref img)) rest
          else if images ''plot2'' = None \<and> row \<ge> 19 \<and> col = 11
          then classify_images (images(''plot2'' \<mapsto> ref img)) rest
          else classify_images images rest)"

text \<open>
  A workbook maps a sheet name to the sheet's image list; \<^verbatim>\<open>workbook[sheet_name]\<close>
  raises \<^verbatim>\<open>KeyError\<close> for a missing sheet. \<open>load_workbook\<close> stands for
  \<^verbatim>\<open>openpyxl.load_workbook\<close>, which may raise. The second component of the result
  is the exception passed to \<^verbatim>\<open>st.error\<close> by the \<^verbatim>\<open>except Exception\<close> handler.
\<close>

type_synonym 'r workbook = "string \<rightharpoonup> 'r image list"

definition extract_images_from_sheet ::
  "(string \<Rightarrow> py_error + 'r workbook) \<Rightarrow> string \<Rightarrow> string \<Rightarrow> 'r images \<times> py_error option" where
  "extract_images_from_sheet load_workbook excel_path sheet_name =
     (case load_workbook excel_path of
        Inl e \<Rightarrow> (Map.empty, Some e)
      | Inr workbook \<Rightarrow>
          (case workbook sheet_name of
             None \<Rightarrow> (Map.empty, Some KeyError)
           | Some sheet_images \<Rightarrow> classify_images Map.empty sheet_images))"

text \<open>The two classification rules, as predicates on an image.\<close>

definition is_plot1 :: "'r image \<Rightarrow> bool" where
  "is_plot1 img = (case anchor_from img of None \<Rightarrow> False | Some (row, col) \<Rightarrow> row \<ge> 19 \<and> col = 0)"

definition is_plot2 :: "'r image \<Rightarrow> bool" where
  "is_plot2 img = (case anchor_from img of None \<Rightarrow> False | Some (row, col) \<Rightarrow> row \<ge> 19 \<and> col = 11)"

definition readable :: "'r image \<Rightarrow> bool" where
  "readable img = (anchor_from img \<noteq> None)"

subsection \<open>\<^verbatim>\<open>find_table_start\<close> and \<^verbatim>\<open>find_table_end\<close>\<close>

text \<open>
  \<^verbatim>\<open>for index, row in df.iterrows()\<close>: the rows from the top, \<open>index\<close> counting them.
  \<open>to_string\<close> stands for \<^verbatim>\<open>row.to_string()\<close>.
\<close>

fun find_table_start_from :: "(row \<Rightarrow> string) \<Rightarrow> string \<Rightarrow> nat \<Rightarrow> grid \<Rightarrow> nat option" where
  "find_table_start_from to_string header_text index [] = None"
| "find_table_start_from to_string header_text index (row # rest) =
     (if py_in header_text (to_string row) then Some index
      else find_table_start_from to_string header_text (Suc index) rest)"

definition find_table_start :: "(row \<Rightarrow> string) \<Rightarrow> grid \<Rightarrow> string \<Rightarrow> nat option" where
  "find_table_start to_string df header_text = find_table_start_from to_string header_text 0 df"

fun isnull :: "cell \<Rightarrow> bool" where
  "isnull Null = True"
| "isnull (Number n) = False"
| "isnull (Text t) = False"

text \<open>\<^verbatim>\<open>df.iloc[i].isnull().all()\<close> for a row.\<close>

definition all_null :: "row \<Rightarrow> bool" where
  "all_null r = list_all isnull r"

text \<open>\<^verbatim>\<open>for i in range(start_search_from, len(df))\<close>, falling through to \<^verbatim>\<open>return len(df)\<close>.\<close>

function find_table_end :: "grid \<Rightarrow> nat \<Rightarrow> nat" where
  "find_table_end df i =
     (if i < length df
      then (if all_null (df ! i) then i else find_table_end df (Suc i))
      else length df)"
  by pat_completeness auto
termination
  by (relation "measure (\<lambda>(df, i). length df - i)") auto

declare find_table_end.simps [simp del]

subsection \<open>\<^verbatim>\<open>display_table_from_sheet\<close>\<close>

text \<open>\<^verbatim>\<open>df.iloc[i]\<close> raises \<^verbatim>\<open>IndexError\<close> out of range; \<^verbatim>\<open>df.iloc[a:b]\<close> clips.\<close>

definition iloc :: "grid \<Rightarrow> nat \<Rightarrow> py_error + row" where
  "iloc df i = (if i < length df then Inr (df ! i) else Inl IndexError)"

definition iloc_slice :: "grid \<Rightarrow> nat \<Rightarrow> nat \<Rightarrow> grid" where
  "iloc_slice df a b = take (b - a) (drop a df)"

text \<open>The loop that renames duplicate column names, with its dictionary \<^verbatim>\<open>seen\<close>.\<close>

fun dedup_loop :: "(string \<rightharpoonup> nat) \<Rightarrow> string list \<Rightarrow> string list \<Rightarrow> string list" where
  "dedup_loop seen new_columns [] = new_columns"
| "dedup_loop seen new_columns (col # rest) =
     (case seen col of
        None \<Rightarrow> dedup_loop (seen(col \<mapsto> 1)) (new_columns @ [col]) rest
      | Some count \<Rightarrow>
          dedup_loop (seen(col \<mapsto> count + 1)) (new_columns @ [col @ ''_'' @ str_nat count]) rest)"

definition dedup_columns :: "string list \<Rightarrow> string list" where
  "dedup_columns cols = dedup_loop Map.empty [] cols"

text \<open>The table that is displayed: its column names and its rows, each as wide as the header.\<close>

record table =
  columns :: "string list"
  records :: "row list"

text \<open>\<^verbatim>\<open>dropna(how='all', axis=0)\<close> and \<^verbatim>\<open>dropna(how='all', axis=1)\<close>.\<close>

definition dropna_rows :: "table \<Rightarrow> table" where
  "dropna_rows t = t\<lparr>records := filter (\<lambda>r. \<not> all_null r) (records t)\<rparr>"

definition column_all_null :: "row list \<Rightarrow> nat \<Rightarrow> bool" where
  "column_all_null rs j = list_all (\<lambda>r. isnull (r ! j)) rs"

definition kept_columns :: "table \<Rightarrow> nat list" where
  "kept_columns t = filter (\<lambda>j. \<not> column_all_null (records t) j) [0..<length (columns t)]"

definition dropna_columns :: "table \<Rightarrow> table" where
  "dropna_columns t =
     \<lparr>columns = map (\<lambda>j. columns t ! j) (kept_columns t),
      records = map (\<lambda>r. map (\<lambda>j. r ! j) (kept_columns t)) (records t)\<rparr>"

text \<open>What the function shows: the table, or one of its two notices.\<close>

datatype shown = Dataframe table | Info string | Warning string

text \<open>The table before the two \<^verbatim>\<open>dropna\<close> calls: \<^verbatim>\<open>table_df\<close> with its new column names.\<close>

definition table_df_of :: "(cell \<Rightarrow> string) \<Rightarrow> grid \<Rightarrow> nat \<Rightarrow> row \<Rightarrow> table" where
  "table_df_of astype_str sheet_df start_row header_row =
     (let data_start_row = start_row + 2;
          table_end_row = find_table_end sheet_df data_start_row
      in \<lparr>columns = dedup_columns (map astype_str header_row),
          records = iloc_slice sheet_df data_start_row table_end_row\<rparr>)"

definition display_table_from_sheet ::
  "(row \<Rightarrow> string) \<Rightarrow> (cell \<Rightarrow> string) \<Rightarrow> grid \<Rightarrow> string \<Rightarrow> py_error + shown" where
  "display_table_from_sheet to_string astype_str sheet_df table_title =
     (case find_table_start to_string sheet_df table_title of
        Some start_row \<Rightarrow>
          (case iloc sheet_df (start_row + 1) of
             Inl e \<Rightarrow> Inl e
           | Inr header_row \<Rightarrow>
               Inr (Dataframe (dropna_columns (dropna_rows
                      (table_df_of astype_str sheet_df start_row header_row)))))
      | None \<Rightarrow>
          if py_in ''Forbidden'' table_title
          then Inr (Info (''No '' @ [CHR 0x27] @ table_title @ [CHR 0x27] @ '' found for this sector.''))
          else Inr (Warning (''Could not find the table '' @ [CHR 0x27] @ table_title @ [CHR 0x27] @ ''.'')))"

text \<open>A DataFrame is rectangular: every row has the width of the frame.\<close>

definition rectangular :: "nat \<Rightarrow> grid \<Rightarrow> bool" where
  "rectangular w df = list_all (\<lambda>r. length r = w) df"

subsection \<open>\<^verbatim>\<open>load_data\<close>\<close>

text \<open>
  An opened \<^verbatim>\<open>pd.ExcelFile\<close>: the sheet names in workbook order and the sheets by name.
  \<^verbatim>\<open>xls.parse(name, header=h)\<close> raises \<^verbatim>\<open>ValueError\<close> for a name that is not a sheet and
  otherwise reads the sheet with \<open>read_sheet h\<close>, where \<open>h = None\<close> is \<^verbatim>\<open>header=None\<close>.
\<close>

record 's excel_file =
  sheet_names :: "string list"
  sheets :: "string \<rightharpoonup> 's"

definition xls_parse ::
  "(nat option \<Rightarrow> 's \<Rightarrow> py_error + 'df) \<Rightarrow> 's excel_file \<Rightarrow> string \<Rightarrow> nat option \<Rightarrow> py_error + 'df" where
  "xls_parse read_sheet xls name header =
     (case sheets xls name of None \<Rightarrow> Inl ValueError | Some s \<Rightarrow> read_sheet header s)"

text \<open>The dictionary comprehension over \<^verbatim>\<open>sector_sheet_names\<close>.\<close>

fun parse_sectors ::
  "(nat option \<Rightarrow> 's \<Rightarrow> py_error + 'df) \<Rightarrow> 's excel_file \<Rightarrow> (string \<rightharpoonup> 'df) \<Rightarrow> string list
     \<Rightarrow> py_error + (string \<rightharpoonup> 'df)" where
  "parse_sectors read_sheet xls sector_data [] = Inr sector_data"
| "parse_sectors read_sheet xls sector_data (sheet_name # rest) =
     (case xls_parse read_sheet xls sheet_name None of
        Inl e \<Rightarrow> Inl e
      | Inr df \<Rightarrow> parse_sectors read_sheet xls (sector_data(sheet_name \<mapsto> df)) rest)"

definition missing_file_message :: "string \<Rightarrow> string" where
  "missing_file_message excel_path =
     ''Error: The file '' @ [CHR 0x27] @ excel_path @ [CHR 0x27] @ '' was not found.''"

definition missing_sheet_message :: string where
  "missing_sheet_message =
     ''Error: A sheet named '' @ [CHR 0x27] @ ''Introduction'' @ [CHR 0x27] @ '' was not found in the Excel file.''"

text \<open>
  The result of \<^verbatim>\<open>load_data\<close>: the messages given to \<^verbatim>\<open>st.error\<close> and the returned pair
  \<^verbatim>\<open>(sector_data, summary_df)\<close>, or the exception that leaves the function.
\<close>

type_synonym 'df loaded = "string list \<times> (string \<rightharpoonup> 'df) option \<times> 'df option"

definition load_data ::
  "(string \<Rightarrow> bool) \<Rightarrow> (string \<Rightarrow> py_error + 's excel_file) \<Rightarrow> (nat option \<Rightarrow> 's \<Rightarrow> py_error + 'df)
     \<Rightarrow> string \<Rightarrow> py_error + 'df loaded" where
  "load_data path_exists excel_file_of read_sheet excel_path =
     (if \<not> path_exists excel_path
      then Inr ([missing_file_message excel_path], None, None)
      else
        (case excel_file_of excel_path of
           Inl e \<Rightarrow> Inl e
         | Inr xls \<Rightarrow>
             (case xls_parse read_sheet xls ''Introduction'' (Some 0) of
                Inl ValueError \<Rightarrow> Inr ([missing_sheet_message], None, None)
              | Inl e \<Rightarrow> Inl e
              | Inr summary_df \<Rightarrow>
                  (let all_sheet_names = sheet_names xls;
                       sector_sheet_names = filter (\<lambda>name. name \<noteq> ''Introduction'') all_sheet_names
                   in case parse_sectors read_sheet xls Map.empty sector_sheet_names of
                        Inl e \<Rightarrow> Inl e
                      | Inr sector_data \<Rightarrow> Inr ([], Some sector_data, Some summary_df)))))"

text \<open>
  The caller's gate, \<^verbatim>\<open>if sector_data is None or summary_df.empty: st.stop()\<close>:
  \<open>True\<close> when the script stops. \<open>df_empty\<close> stands for \<^verbatim>\<open>DataFrame.empty\<close>.
\<close>

definition main_stops :: "('df \<Rightarrow> bool) \<Rightarrow> (string \<rightharpoonup> 'df) option \<times> 'df option \<Rightarrow> py_error + bool" where
  "main_stops df_empty loaded =
     (case loaded of
        (None, summary_df) \<Rightarrow> Inr True
      | (Some sector_data, None) \<Rightarrow> Inl AttributeError
      | (Some sector_data, Some summary_df) \<Rightarrow> Inr (df_empty summary_df))"

subsection \<open>Sample inputs\<close>

text \<open>
  Concrete stand-ins for the two library stringifiers and a small sector sheet, on
  which the functions are evaluated: a header value is rendered by its text, its
  digits or \<^verbatim>\<open>nan\<close>, and a row by its rendered cells, each followed by a blank.
\<close>

definition sample_astype_str :: "cell \<Rightarrow> string" where
  "sample_astype_str c =
     (case c of Null \<Rightarrow> ''nan''
      | Number n \<Rightarrow> (if n < 0 then ''-'' else []) @ str_nat (nat \<bar>n\<bar>)
      | Text t \<Rightarrow> t)"

definition sample_to_string :: "row \<Rightarrow> string" where
  "sample_to_string r = concat (map (\<lambda>c. sample_astype_str c @ '' '') r)"

definition sample_sheet :: grid where
  "sample_sheet =
     [[Text ''Sector S1'', Null],
      [Text ''Recommendation Report'', Null],
      [Text ''ID'', Text ''Value''],
      [Text ''x1'', Number 10],
      [Text ''x2'', Number 20],
      [Null, Null],
      [Text ''Recommendation Report'', Text ''again'']]"

text \<open>A table whose second column is empty, and whose header leaves that column unnamed.\<close>

definition sample_gappy_sheet :: grid where
  "sample_gappy_sheet =
     [[Text ''KPI table'', Null, Null],
      [Text ''ID'', Null, Text ''Value''],
      [Text ''x1'', Null, Number 10],
      [Text ''x2'', Null, Null]]"

text \<open>
  A workbook with the index sheet and two sector sheets, and a reader that returns the
  sheet together with the \<^verbatim>\<open>header\<close> argument it was read with.
\<close>

definition sample_excel_file :: "string excel_file" where
  "sample_excel_file =
     \<lparr>sheet_names = [''Introduction'', ''S1'', ''S2''],
      sheets = [''Introduction'' \<mapsto> ''index'', ''S1'' \<mapsto> ''first'', ''S2'' \<mapsto> ''second'']\<rparr>"

definition sample_read_sheet :: "nat option \<Rightarrow> string \<Rightarrow> py_error + (nat option \<times> string)" where
  "sample_read_sheet header s = Inr (header, s)"

section \<open>Image classification\<close>

lemma readable_anchor: "readable img \<Longrightarrow> \<exists>row col. anchor_from img = Some (row, col)"
  by (cases "anchor_from img") (auto simp: readable_def)

text \<open>
  While every anchor can be read the loop runs to the end of the list, and a slot that
  is still free afterwards takes the first image that satisfies its rule.
\<close>

lemma classify_images_readable:
  "list_all readable imgs \<Longrightarrow>
   classify_images images imgs =
     (images(''plot1'' := (case images ''plot1'' of Some r \<Rightarrow> Some r
                           | None \<Rightarrow> map_option ref (find is_plot1 imgs)),
             ''plot2'' := (case images ''plot2'' of Some r \<Rightarrow> Some r
                           | None \<Rightarrow> map_option ref (find is_plot2 imgs))),
      None)"
proof (induction imgs arbitrary: images)
  case Nil
  show ?case by (auto simp: fun_eq_iff split: option.splits)
next
  case (Cons img rest)
  from Cons.prems have r: "list_all readable rest" and "readable img" by simp_all
  then obtain row col where a: "anchor_from img = Some (row, col)"
    using readable_anchor by blast
  show ?case
    using a Cons.IH [OF r]
    by (auto simp: fun_eq_iff is_plot1_def is_plot2_def split: option.splits)
qed

text \<open>The first image whose anchor cannot be read ends the loop with what was assigned so far.\<close>

lemma classify_images_stops:
  "list_all readable pre \<Longrightarrow> \<not> readable bad \<Longrightarrow>
   classify_images images (pre @ bad # post) = (fst (classify_images images pre), Some AttributeError)"
proof (induction pre arbitrary: images)
  case Nil
  then have "anchor_from bad = None" by (cases "anchor_from bad") (auto simp: readable_def)
  then show ?case by simp
next
  case (Cons img rest)
  from Cons.prems have r: "list_all readable rest" and "readable img" by simp_all
  then obtain row col where a: "anchor_from img = Some (row, col)"
    using readable_anchor by blast
  show ?case
    using a by (simp add: Cons.IH [OF r Cons.prems(2)] del: fun_upd_apply)
qed

text \<open>
  C2. For a sheet whose images all have a readable anchor, the returned dictionary has
  at most the keys \<^verbatim>\<open>plot1\<close> and \<^verbatim>\<open>plot2\<close>; \<^verbatim>\<open>plot1\<close> is the reference of the first image
  in listed order with anchor row at least 19 and anchor column 0, \<^verbatim>\<open>plot2\<close> that of the
  first image with anchor row at least 19 and anchor column 11, and a slot without a
  qualifying image is absent. Every other image is ignored, and nothing is reported.
\<close>

theorem extract_images_first_qualifying:
  assumes "load_workbook excel_path = Inr workbook"
    and "workbook sheet_name = Some imgs"
    and "list_all readable imgs"
  shows "extract_images_from_sheet load_workbook excel_path sheet_name =
           (Map.empty(''plot1'' := map_option ref (find is_plot1 imgs),
                      ''plot2'' := map_option ref (find is_plot2 imgs)), None)"
  using assms classify_images_readable [of imgs Map.empty]
  by (simp add: extract_images_from_sheet_def)

text \<open>
  Images at (5,0), (25,0), (25,11), (30,0) and (19,11), in this order: the one at (5,0)
  fills nothing, (25,0) is \<^verbatim>\<open>plot1\<close>, (25,11) is \<^verbatim>\<open>plot2\<close>, and the later qualifiers
  are ignored.
\<close>

theorem extract_images_first_qualifying_witness:
  "extract_images_from_sheet
     (\<lambda>p. Inr [''S1'' \<mapsto>
        [\<lparr>anchor_from = Some (5, 0), ref = ''a''\<rparr>,
         \<lparr>anchor_from = Some (25, 0), ref = ''b''\<rparr>,
         \<lparr>anchor_from = Some (25, 11), ref = ''c''\<rparr>,
         \<lparr>anchor_from = Some (30, 0), ref = ''d''\<rparr>,
         \<lparr>anchor_from = Some (19, 11), ref = ''e''\<rparr>]])
     ''report.xlsx'' ''S1''
   = ([''plot1'' \<mapsto> ''b'', ''plot2'' \<mapsto> ''c''], None)"
  using extract_images_first_qualifying [of "\<lambda>p. Inr [''S1'' \<mapsto>
        [\<lparr>anchor_from = Some (5, 0), ref = ''a''\<rparr>,
         \<lparr>anchor_from = Some (25, 0), ref = ''b''\<rparr>,
         \<lparr>anchor_from = Some (25, 11), ref = ''c''\<rparr>,
         \<lparr>anchor_from = Some (30, 0), ref = ''d''\<rparr>,
         \<lparr>anchor_from = Some (19, 11), ref = ''e''\<rparr>]]" "''report.xlsx''" _ "''S1''"]
  by (simp add: readable_def is_plot1_def is_plot2_def)

text \<open>
  C8. When the image list of the sheet cannot be read at all, because opening the
  workbook raises or because the workbook has no sheet of that name, the function
  returns the empty dictionary and reports the exception; nothing is raised to the caller.
\<close>

theorem extract_images_unreadable_sheet:
  "(load_workbook excel_path = Inl e \<longrightarrow>
      extract_images_from_sheet load_workbook excel_path sheet_name = (Map.empty, Some e))
   \<and> (load_workbook excel_path = Inr workbook \<and> workbook sheet_name = None \<longrightarrow>
      extract_images_from_sheet load_workbook excel_path sheet_name = (Map.empty, Some KeyError))"
  by (simp add: extract_images_from_sheet_def)

theorem extract_images_unreadable_sheet_witness:
  "extract_images_from_sheet (\<lambda>p. Inl (OtherError ''corrupt'')) ''report.xlsx'' ''S1''
     = (Map.empty :: string images, Some (OtherError ''corrupt''))
   \<and> extract_images_from_sheet (\<lambda>p. Inr [''S1'' \<mapsto> []]) ''report.xlsx'' ''S2''
     = (Map.empty :: string images, Some KeyError)"
  using extract_images_unreadable_sheet
          [of "\<lambda>p. Inl (OtherError ''corrupt'')" "''report.xlsx''" "OtherError ''corrupt''" "''S1''"
              "Map.empty :: string workbook"]
        extract_images_unreadable_sheet
          [of "\<lambda>p. Inr [''S1'' \<mapsto> ([] :: string image list)]" "''report.xlsx''" "KeyError" "''S2''"
              "[''S1'' \<mapsto> ([] :: string image list)]"]
  by simp

text \<open>
  C10. The function returns a dictionary and a report for every input; no exception
  leaves it. When reading an anchor raises in the middle of the list, the images before
  the failing one have been classified and their slots stay in the returned dictionary,
  which is therefore not empty in general; the images after the failing one are not seen.
\<close>

theorem extract_images_partial_on_failure:
  assumes "load_workbook excel_path = Inr workbook"
    and "workbook sheet_name = Some (pre @ bad # post)"
    and "list_all readable pre"
    and "\<not> readable bad"
  shows "extract_images_from_sheet load_workbook excel_path sheet_name =
           (Map.empty(''plot1'' := map_option ref (find is_plot1 pre),
                      ''plot2'' := map_option ref (find is_plot2 pre)), Some AttributeError)"
  using assms classify_images_stops [of pre bad Map.empty post]
    classify_images_readable [of pre Map.empty]
  by (simp add: extract_images_from_sheet_def)

text \<open>An image for \<^verbatim>\<open>plot1\<close>, then one without \<^verbatim>\<open>_from\<close>, then one for \<^verbatim>\<open>plot2\<close>: only \<^verbatim>\<open>plot1\<close> is returned.\<close>

theorem extract_images_partial_on_failure_witness:
  "extract_images_from_sheet
     (\<lambda>p. Inr [''S1'' \<mapsto>
        [\<lparr>anchor_from = Some (25, 0), ref = ''b''\<rparr>,
         \<lparr>anchor_from = None, ref = ''x''\<rparr>,
         \<lparr>anchor_from = Some (25, 11), ref = ''c''\<rparr>]])
     ''report.xlsx'' ''S1''
   = ([''plot1'' \<mapsto> ''b''], Some AttributeError)"
  using extract_images_partial_on_failure [of "\<lambda>p. Inr [''S1'' \<mapsto>
        [\<lparr>anchor_from = Some (25, 0), ref = ''b''\<rparr>,
         \<lparr>anchor_from = None, ref = ''x''\<rparr>,
         \<lparr>anchor_from = Some (25, 11), ref = ''c''\<rparr>]]" "''report.xlsx''" _ "''S1''"
        "[\<lparr>anchor_from = Some (25, 0), ref = ''b''\<rparr>]" "\<lparr>anchor_from = None, ref = ''x''\<rparr>"
        "[\<lparr>anchor_from = Some (25, 11), ref = ''c''\<rparr>]"]
  by (simp add: readable_def is_plot1_def is_plot2_def)

section \<open>Locating a table\<close>

subsection \<open>Evaluation on concrete inputs\<close>

lemma py_in_simps:
  "py_in [] hay = True"
  "py_in (x # xs) [] = False"
  "py_in (x # xs) (y # ys) = (prefix (x # xs) (y # ys) \<or> py_in (x # xs) ys)"
  by (simp_all add: py_in_def sublist_Cons_right)

lemma str_nat_values:
  "str_nat 1 = ''1''" "str_nat 2 = ''2''" "str_nat 10 = ''10''" "str_nat 20 = ''20''"
  by code_simp+

lemma str_nat_Suc_values:
  "str_nat (Suc 0) = ''1''" "str_nat (Suc (Suc 0)) = ''2''"
  by code_simp+

lemma sample_sheet_nulls:
  "\<not> all_null (sample_sheet ! 3)" "\<not> all_null (sample_sheet ! 4)" "all_null (sample_sheet ! 5)"
  by (simp_all add: sample_sheet_def all_null_def)

lemma sample_sheet_start:
  "find_table_start sample_to_string sample_sheet ''Report'' = Some 1"
  by (simp add: find_table_start_def sample_sheet_def sample_to_string_def sample_astype_str_def
      py_in_simps)

subsection \<open>The title row\<close>







subsection \<open>The data extent\<close>

lemma find_table_end_takeWhile:
  "find_table_end df s =
     (if s \<le> length df then s + length (takeWhile (\<lambda>r. \<not> all_null r) (drop s df)) else length df)"
proof (induction df s rule: find_table_end.induct)
  case (1 df i)
  show ?case
  proof (cases "i < length df")
    case True
    then have d: "drop i df = df ! i # drop (Suc i) df"
      by (simp add: Cons_nth_drop_Suc)
    show ?thesis
    proof (cases "all_null (df ! i)")
      case True
      then show ?thesis using \<open>i < length df\<close> d
        by (simp add: find_table_end.simps [of df i])
    next
      case False
      then show ?thesis using \<open>i < length df\<close> d "1.IH"
        by (simp add: find_table_end.simps [of df i])
    qed
  next
    case False
    then show ?thesis
      by (simp add: find_table_end.simps [of df i])
  qed
qed

lemma iloc_slice_data:
  "iloc_slice df s (find_table_end df s) = takeWhile (\<lambda>r. \<not> all_null r) (drop s df)"
proof (cases "s \<le> length df")
  case True
  have "take (length (takeWhile (\<lambda>r. \<not> all_null r) (drop s df))) (drop s df)
          = takeWhile (\<lambda>r. \<not> all_null r) (drop s df)"
    by (metis takeWhile_eq_take)
  then show ?thesis using True
    by (simp add: iloc_slice_def find_table_end_takeWhile)
next
  case False
  then show ?thesis
    by (simp add: iloc_slice_def find_table_end_takeWhile)
qed


lemma find_table_end_bounds:
  assumes "s \<le> length df"
  shows "s \<le> find_table_end df s" and "find_table_end df s \<le> length df"
proof -
  have "length (takeWhile (\<lambda>r. \<not> all_null r) (drop s df)) \<le> length (drop s df)"
    by (rule length_takeWhile_le)
  then show "s \<le> find_table_end df s" and "find_table_end df s \<le> length df"
    using assms by (simp_all add: find_table_end_takeWhile)
qed

lemma find_table_end_before:
  assumes "s \<le> i" and "i < find_table_end df s"
  shows "\<not> all_null (df ! i)"
proof -
  let ?tw = "takeWhile (\<lambda>r. \<not> all_null r) (drop s df)"
  have sl: "s \<le> length df"
    using assms by (simp add: find_table_end_takeWhile split: if_splits)
  then have j: "i - s < length ?tw"
    using assms by (simp add: find_table_end_takeWhile)
  then have "?tw ! (i - s) \<in> set ?tw" by (rule nth_mem)
  then have "\<not> all_null (?tw ! (i - s))" by (rule set_takeWhileD [THEN conjunct2])
  moreover have "?tw ! (i - s) = drop s df ! (i - s)"
    using j by (rule takeWhile_nth)
  moreover have "i < length df"
    using assms(2) find_table_end_bounds(2) [OF sl] by simp
  ultimately show ?thesis using assms(1) by simp
qed

lemma find_table_end_at:
  assumes "s \<le> length df" and "find_table_end df s < length df"
  shows "all_null (df ! find_table_end df s)"
proof -
  let ?xs = "drop s df"
  let ?n = "length (takeWhile (\<lambda>r. \<not> all_null r) ?xs)"
  have e: "find_table_end df s = s + ?n"
    using assms(1) by (simp add: find_table_end_takeWhile)
  then have "?n < length ?xs" using assms by simp
  then have "\<not> \<not> all_null (?xs ! ?n)" by (rule nth_length_takeWhile)
  then show ?thesis using e assms by simp
qed

text \<open>
  C5. The data rows of the table are the rows from \<open>start_row + 2\<close> up to, and not
  including, the first row at or after that index whose cells are all null; when there
  is no such row they run to the end of the grid, \<^verbatim>\<open>find_table_end\<close> returning the number
  of rows. So the data rows are the longest run of rows that are not all null from
  \<open>start_row + 2\<close> on, and no row after the first all-null row is among them.
\<close>

theorem data_extent:
  "records (table_df_of astype_str df start_row header_row)
     = iloc_slice df (start_row + 2) (find_table_end df (start_row + 2))
   \<and> records (table_df_of astype_str df start_row header_row)
     = takeWhile (\<lambda>r. \<not> all_null r) (drop (start_row + 2) df)
   \<and> (start_row + 2 \<le> length df \<longrightarrow>
        start_row + 2 \<le> find_table_end df (start_row + 2)
        \<and> find_table_end df (start_row + 2) \<le> length df
        \<and> (\<forall>i. start_row + 2 \<le> i \<and> i < find_table_end df (start_row + 2) \<longrightarrow> \<not> all_null (df ! i))
        \<and> (find_table_end df (start_row + 2) < length df \<longrightarrow>
              all_null (df ! find_table_end df (start_row + 2)))
        \<and> ((\<forall>i. start_row + 2 \<le> i \<and> i < length df \<longrightarrow> \<not> all_null (df ! i)) \<longrightarrow>
              find_table_end df (start_row + 2) = length df))
   \<and> (find_table_start to_string df title = Some start_row \<and> start_row + 1 < length df \<longrightarrow>
        display_table_from_sheet to_string astype_str df title =
          Inr (Dataframe (dropna_columns (dropna_rows
                 (table_df_of astype_str df start_row (df ! (start_row + 1)))))))"
proof -
  let ?s = "start_row + 2"
  let ?e = "find_table_end df ?s"
  have a: "records (table_df_of astype_str df start_row header_row) = iloc_slice df ?s ?e"
    by (simp add: table_df_of_def)
  have b: "records (table_df_of astype_str df start_row header_row)
             = takeWhile (\<lambda>r. \<not> all_null r) (drop ?s df)"
    unfolding a by (rule iloc_slice_data)
  have c: "?s \<le> ?e \<and> ?e \<le> length df
        \<and> (\<forall>i. ?s \<le> i \<and> i < ?e \<longrightarrow> \<not> all_null (df ! i))
        \<and> (?e < length df \<longrightarrow> all_null (df ! ?e))
        \<and> ((\<forall>i. ?s \<le> i \<and> i < length df \<longrightarrow> \<not> all_null (df ! i)) \<longrightarrow> ?e = length df)"
    if sl: "?s \<le> length df"
  proof -
    note bd = find_table_end_bounds [OF sl]
    have at: "?e < length df \<longrightarrow> all_null (df ! ?e)"
      using find_table_end_at [OF sl] by blast
    have "?e = length df" if "\<forall>i. ?s \<le> i \<and> i < length df \<longrightarrow> \<not> all_null (df ! i)"
    proof (rule ccontr)
      assume "?e \<noteq> length df"
      then have "?e < length df" using bd(2) by simp
      then show False using at that bd(1) by blast
    qed
    then show ?thesis
      using bd at find_table_end_before [of ?s _ df] by blast
  qed
  have d: "find_table_start to_string df title = Some start_row \<and> start_row + 1 < length df \<longrightarrow>
        display_table_from_sheet to_string astype_str df title =
          Inr (Dataframe (dropna_columns (dropna_rows
                 (table_df_of astype_str df start_row (df ! (start_row + 1))))))"
    by (simp add: display_table_from_sheet_def iloc_def)
  from a b c d show ?thesis by blast
qed

theorem data_extent_witness:
  "find_table_end sample_sheet 3 = 5
   \<and> records (table_df_of sample_astype_str sample_sheet 1 (sample_sheet ! 2))
       = [[Text ''x1'', Number 10], [Text ''x2'', Number 20]]
   \<and> display_table_from_sheet sample_to_string sample_astype_str sample_sheet ''Report''
       = Inr (Dataframe (dropna_columns (dropna_rows
               (table_df_of sample_astype_str sample_sheet 1 (sample_sheet ! 2)))))"
proof -
  let ?e = "find_table_end sample_sheet 3"
  have n: "(1::nat) + 2 = 3" "(1::nat) + 1 = 2" by simp_all
  have len: "length sample_sheet = 7" by (simp add: sample_sheet_def)
  note t = data_extent [of sample_astype_str sample_sheet 1 "sample_sheet ! 2" sample_to_string "''Report''",
      unfolded n len]
  from t have lo: "3 \<le> ?e" and hi: "?e \<le> 7"
    and before: "\<forall>i. 3 \<le> i \<and> i < ?e \<longrightarrow> \<not> all_null (sample_sheet ! i)"
    and at: "?e < 7 \<longrightarrow> all_null (sample_sheet ! ?e)"
    by simp_all
  have "\<not> 5 < ?e" using before sample_sheet_nulls(3) by auto
  then have "?e = 3 \<or> ?e = 4 \<or> ?e = 5" using lo by arith
  then have e: "?e = 5" using at sample_sheet_nulls(1,2) by auto
  from t have tw: "records (table_df_of sample_astype_str sample_sheet 1 (sample_sheet ! 2))
       = takeWhile (\<lambda>r. \<not> all_null r) (drop 3 sample_sheet)"
    by blast
  have r: "records (table_df_of sample_astype_str sample_sheet 1 (sample_sheet ! 2))
       = [[Text ''x1'', Number 10], [Text ''x2'', Number 20]]"
    unfolding tw by (simp add: sample_sheet_def all_null_def)
  have d: "display_table_from_sheet sample_to_string sample_astype_str sample_sheet ''Report''
       = Inr (Dataframe (dropna_columns (dropna_rows
               (table_df_of sample_astype_str sample_sheet 1 (sample_sheet ! 2)))))"
    using t sample_sheet_start by simp
  from e r d show ?thesis by blast
qed

subsection \<open>A title on the last row\<close>

text \<open>
  C9. When the title is found on the last row of the grid there is no row for the
  header, and reading it with \<^verbatim>\<open>iloc\<close> raises \<^verbatim>\<open>IndexError\<close>: the function neither shows a
  notice nor a table.
\<close>

theorem title_on_last_row_raises:
  assumes "find_table_start to_string df title = Some start_row"
    and "Suc start_row = length df"
  shows "display_table_from_sheet to_string astype_str df title = Inl IndexError"
  using assms by (simp add: display_table_from_sheet_def iloc_def)


theorem title_on_last_row_raises_witness:
  "display_table_from_sheet sample_to_string sample_astype_str sample_sheet ''again'' = Inl IndexError"
proof -
  have "find_table_start sample_to_string sample_sheet ''again'' = Some 6"
    by (simp add: find_table_start_def sample_sheet_def sample_to_string_def sample_astype_str_def
      py_in_simps str_nat_values)
  moreover have "Suc 6 = length sample_sheet" by (simp add: sample_sheet_def)
  ultimately show ?thesis by (rule title_on_last_row_raises)
qed


section \<open>Column names\<close>

text \<open>
  After the columns \<open>prior\<close> the dictionary \<^verbatim>\<open>seen\<close> holds, for every name that occurred,
  the number of its occurrences; the loop then appends one name for each further column.
\<close>

lemma seen_update:
  "(\<lambda>x. if count_list prior x = 0 then None else Some (count_list prior x))
      (c \<mapsto> Suc (count_list prior c))
   = (\<lambda>x. if count_list (prior @ [c]) x = 0 then None else Some (count_list (prior @ [c]) x))"
  by (auto simp: fun_eq_iff)

lemma dedup_loop_names:
  "dedup_loop (\<lambda>x. if count_list prior x = 0 then None else Some (count_list prior x)) acc cols
     = acc @ map (\<lambda>i. let n = count_list (prior @ take i cols) (cols ! i)
                        in if n = 0 then cols ! i else cols ! i @ ''_'' @ str_nat n)
                 [0..<length cols]"
proof (induction cols arbitrary: prior acc)
  case Nil
  show ?case by simp
next
  case (Cons c rest)
  let ?seen = "\<lambda>d x. if count_list d x = 0 then None else Some (count_list d x)"
  let ?name = "\<lambda>d cs i. let n = count_list (d @ take i cs) (cs ! i)
                        in if n = 0 then cs ! i else cs ! i @ ''_'' @ str_nat n"
  have shift: "map (?name prior (c # rest)) [0..<length (c # rest)]
                 = ?name prior (c # rest) 0 # map (?name (prior @ [c]) rest) [0..<length rest]"
    by (simp add: map_upt_Suc del: upt_Suc)
  show ?case
  proof (cases "count_list prior c = 0")
    case True
    have "dedup_loop (?seen prior) acc (c # rest) = dedup_loop ((?seen prior)(c \<mapsto> 1)) (acc @ [c]) rest"
      using True by simp
    also have "(?seen prior)(c \<mapsto> 1) = ?seen (prior @ [c])"
      using seen_update [of prior c] True by simp
    also have "dedup_loop (?seen (prior @ [c])) (acc @ [c]) rest
                 = (acc @ [c]) @ map (?name (prior @ [c]) rest) [0..<length rest]"
      by (rule Cons.IH)
    finally show ?thesis
      unfolding shift using True by simp
  next
    case False
    then obtain k where k: "count_list prior c = Suc k" by (cases "count_list prior c") auto
    have "dedup_loop (?seen prior) acc (c # rest)
            = dedup_loop ((?seen prior)(c \<mapsto> Suc k + 1)) (acc @ [c @ ''_'' @ str_nat (Suc k)]) rest"
      using k by simp
    also have "(?seen prior)(c \<mapsto> Suc k + 1) = ?seen (prior @ [c])"
      using seen_update [of prior c] k by simp
    also have "dedup_loop (?seen (prior @ [c])) (acc @ [c @ ''_'' @ str_nat (Suc k)]) rest
                 = (acc @ [c @ ''_'' @ str_nat (Suc k)]) @ map (?name (prior @ [c]) rest) [0..<length rest]"
      by (rule Cons.IH)
    finally show ?thesis
      unfolding shift using k by simp
  qed
qed

lemma length_dedup_columns: "length (dedup_columns cols) = length cols"
  using dedup_loop_names [of "[]" "[]" cols] by (simp add: dedup_columns_def)

text \<open>
  C3. The header values are stringified and passed through the dedup loop, which
  keeps the number of columns. A name with no earlier occurrence in the header is kept
  as it is; a name with \<open>n > 0\<close> earlier occurrences becomes the name followed by an
  underscore and \<open>n\<close> in decimal, so the first duplicate gets \<^verbatim>\<open>_1\<close>, the second \<^verbatim>\<open>_2\<close>.
  The headers A, B, A, A become A, B, A_1, A_2.
\<close>

theorem dedup_columns_renames:
  "length (dedup_columns cols) = length cols
   \<and> (\<forall>i < length cols.
        dedup_columns cols ! i =
          (let n = count_list (take i cols) (cols ! i)
           in if n = 0 then cols ! i else cols ! i @ ''_'' @ str_nat n))
   \<and> dedup_columns [''A'', ''B'', ''A'', ''A''] = [''A'', ''B'', ''A_1'', ''A_2'']
   \<and> columns (table_df_of astype_str df start_row header_row)
        = dedup_columns (map astype_str header_row)"
proof -
  have e: "dedup_columns cs = map (\<lambda>i. let n = count_list (take i cs) (cs ! i)
                        in if n = 0 then cs ! i else cs ! i @ ''_'' @ str_nat n) [0..<length cs]" for cs
    using dedup_loop_names [of "[]" "[]" cs] by (simp add: dedup_columns_def)
  have a: "length (dedup_columns cols) = length cols"
    by (simp add: e)
  have b: "\<forall>i < length cols.
        dedup_columns cols ! i =
          (let n = count_list (take i cols) (cols ! i)
           in if n = 0 then cols ! i else cols ! i @ ''_'' @ str_nat n)"
    by (simp add: e Let_def)
  have c: "dedup_columns [''A'', ''B'', ''A'', ''A''] = [''A'', ''B'', ''A_1'', ''A_2'']"
    by (simp add: dedup_columns_def str_nat_Suc_values)
  have d: "columns (table_df_of astype_str df start_row header_row)
        = dedup_columns (map astype_str header_row)"
    by (simp add: table_df_of_def)
  from a b c d show ?thesis by blast
qed

theorem dedup_columns_renames_witness:
  "dedup_columns [''ID'', ''KPI'', ''ID''] ! 2 = ''ID_1''"
proof -
  have "dedup_columns [''ID'', ''KPI'', ''ID''] ! 2 =
          (let n = count_list (take 2 [''ID'', ''KPI'', ''ID'']) ([''ID'', ''KPI'', ''ID''] ! 2)
           in if n = 0 then [''ID'', ''KPI'', ''ID''] ! 2
              else [''ID'', ''KPI'', ''ID''] ! 2 @ ''_'' @ str_nat n)"
    using dedup_columns_renames [of "[''ID'', ''KPI'', ''ID'']"] by simp
  then show ?thesis by (simp add: str_nat_Suc_values)
qed

text \<open>
  C4. The new names are not always distinct: a generated name can coincide with a name
  that is in the header already. For the header A, A, A_1 the loop renames the second A
  to A_1, and the table that is shown has two columns named A_1.
\<close>

theorem dedup_columns_collision:
  "dedup_columns [''A'', ''A'', ''A_1''] = [''A'', ''A_1'', ''A_1'']
   \<and> \<not> distinct (dedup_columns [''A'', ''A'', ''A_1''])
   \<and> display_table_from_sheet sample_to_string sample_astype_str
        [[Text ''Cells'', Null, Null],
         [Text ''A'', Text ''A'', Text ''A_1''],
         [Number 1, Number 2, Number 3]] ''Cells''
      = Inr (Dataframe \<lparr>columns = [''A'', ''A_1'', ''A_1''],
                        records = [[Number 1, Number 2, Number 3]]\<rparr>)"
  by code_simp

section \<open>Trimming\<close>

lemma all_null_iff: "all_null r \<longleftrightarrow> (\<forall>j < length r. isnull (r ! j))"
  by (simp add: all_null_def list_all_length)

lemma column_all_null_filter:
  assumes "rectangular w rs" and "j < w"
  shows "column_all_null (filter (\<lambda>r. \<not> all_null r) rs) j \<longleftrightarrow> column_all_null rs j"
proof
  assume "column_all_null rs j"
  then show "column_all_null (filter (\<lambda>r. \<not> all_null r) rs) j"
    by (simp add: column_all_null_def list_all_iff)
next
  assume f: "column_all_null (filter (\<lambda>r. \<not> all_null r) rs) j"
  have "isnull (r ! j)" if "r \<in> set rs" for r
  proof (cases "all_null r")
    case True
    moreover have "length r = w" using assms(1) that by (simp add: rectangular_def list_all_iff)
    ultimately show ?thesis using assms(2) by (simp add: all_null_iff)
  next
    case False
    then show ?thesis using f that by (simp add: column_all_null_def list_all_iff)
  qed
  then show "column_all_null rs j"
    by (simp add: column_all_null_def list_all_iff)
qed

lemma kept_columns_dropna_rows:
  assumes "rectangular (length (columns t)) (records t)"
  shows "kept_columns (dropna_rows t)
           = filter (\<lambda>j. \<not> column_all_null (records t) j) [0..<length (columns t)]"
proof -
  have "filter (\<lambda>j. \<not> column_all_null (filter (\<lambda>r. \<not> all_null r) (records t)) j) [0..<length (columns t)]
          = filter (\<lambda>j. \<not> column_all_null (records t) j) [0..<length (columns t)]"
    by (rule filter_cong) (simp_all add: column_all_null_filter [OF assms])
  then show ?thesis
    by (simp add: kept_columns_def dropna_rows_def)
qed

lemma kept_columns_ascending: "sorted_wrt (<) (kept_columns t)"
  unfolding kept_columns_def by (rule sorted_wrt_filter) (rule sorted_wrt_upt)

lemma trimmed_row_not_null:
  assumes "rectangular (length (columns t)) (records t)"
    and "r \<in> set (records (dropna_rows t))"
  shows "\<not> all_null (map (\<lambda>j. r ! j) (kept_columns (dropna_rows t)))"
proof -
  let ?t1 = "dropna_rows t"
  from assms(2) have rin: "r \<in> set (records t)" and nn: "\<not> all_null r"
    by (simp_all add: dropna_rows_def)
  from rin assms(1) have len: "length r = length (columns t)"
    by (simp add: rectangular_def list_all_iff)
  from nn obtain j where j: "j < length r" "\<not> isnull (r ! j)"
    by (auto simp: all_null_iff)
  have "\<not> column_all_null (records ?t1) j"
    using assms(2) j(2) by (auto simp: column_all_null_def list_all_iff)
  then have "j \<in> set (kept_columns ?t1)"
    using j(1) len by (simp add: kept_columns_def dropna_rows_def)
  then show ?thesis
    using j(2) by (auto simp: all_null_def list_all_iff)
qed

lemma trimmed_column_not_null:
  assumes "k < length (kept_columns t)"
  shows "\<not> column_all_null (records (dropna_columns t)) k"
proof -
  have "kept_columns t ! k \<in> set (kept_columns t)"
    using assms by (rule nth_mem)
  then have "\<not> column_all_null (records t) (kept_columns t ! k)"
    by (simp add: kept_columns_def)
  moreover have "column_all_null (records (dropna_columns t)) k
                   = column_all_null (records t) (kept_columns t ! k)"
    using assms by (simp add: column_all_null_def dropna_columns_def list_all_iff)
  ultimately show ?thesis by simp
qed

lemma table_df_of_rectangular:
  assumes "rectangular w df" and "start_row + 1 < length df"
  shows "rectangular (length (columns (table_df_of astype_str df start_row (df ! (start_row + 1)))))
           (records (table_df_of astype_str df start_row (df ! (start_row + 1))))"
proof -
  have h: "length (df ! (start_row + 1)) = w"
    using assms by (simp add: rectangular_def list_all_length)
  have "set (iloc_slice df a b) \<subseteq> set df" for a b
    unfolding iloc_slice_def by (meson set_take_subset set_drop_subset subset_trans)
  then have "\<forall>r \<in> set (iloc_slice df a b). length r = w" for a b
    using assms(1) by (auto simp: rectangular_def list_all_iff)
  then show ?thesis
    using h by (simp add: table_df_of_def length_dedup_columns rectangular_def list_all_iff)
qed

text \<open>
  C6. For a located table in a rectangular grid, the table that is shown keeps the
  data rows that are not all null, in their order, and of each the cells in the columns
  \<open>keep\<close>: the column positions, in ascending order, at which some data row is not null.
  No row and no column of the shown table is all null.
\<close>

theorem trim_drops_empty:
  assumes "rectangular w df"
    and "find_table_start to_string df title = Some start_row"
    and "start_row + 1 < length df"
  shows "let t = table_df_of astype_str df start_row (df ! (start_row + 1));
             keep = filter (\<lambda>j. \<not> column_all_null (records t) j) [0..<length (columns t)]
         in \<exists>trimmed.
              display_table_from_sheet to_string astype_str df title = Inr (Dataframe trimmed)
              \<and> records trimmed = map (\<lambda>r. map (\<lambda>j. r ! j) keep) (filter (\<lambda>r. \<not> all_null r) (records t))
              \<and> columns trimmed = map (\<lambda>j. columns t ! j) keep
              \<and> sorted_wrt (<) keep
              \<and> (\<forall>r \<in> set (records trimmed). \<not> all_null r)
              \<and> (\<forall>k < length (columns trimmed). \<not> column_all_null (records trimmed) k)"
proof -
  define t where "t = table_df_of astype_str df start_row (df ! (start_row + 1))"
  define keep where "keep = filter (\<lambda>j. \<not> column_all_null (records t) j) [0..<length (columns t)]"
  define trimmed where "trimmed = dropna_columns (dropna_rows t)"
  have rect: "rectangular (length (columns t)) (records t)"
    unfolding t_def using assms(1,3) by (rule table_df_of_rectangular)
  have k: "kept_columns (dropna_rows t) = keep"
    unfolding keep_def using rect by (rule kept_columns_dropna_rows)
  have d: "display_table_from_sheet to_string astype_str df title = Inr (Dataframe trimmed)"
    using assms(2,3) by (simp add: display_table_from_sheet_def iloc_def trimmed_def t_def)
  have r: "records trimmed = map (\<lambda>r. map (\<lambda>j. r ! j) keep) (filter (\<lambda>r. \<not> all_null r) (records t))"
    by (simp add: trimmed_def dropna_columns_def k) (simp add: dropna_rows_def)
  have c: "columns trimmed = map (\<lambda>j. columns t ! j) keep"
    by (simp add: trimmed_def dropna_columns_def k) (simp add: dropna_rows_def)
  have s: "sorted_wrt (<) keep"
    using kept_columns_ascending [of "dropna_rows t"] by (simp add: k)
  have nr: "\<forall>r \<in> set (records trimmed). \<not> all_null r"
  proof
    fix r' assume "r' \<in> set (records trimmed)"
    then obtain r where "r \<in> set (records (dropna_rows t))" and "r' = map (\<lambda>j. r ! j) keep"
      by (auto simp: trimmed_def dropna_columns_def k)
    then show "\<not> all_null r'"
      using trimmed_row_not_null [OF rect, of r] by (simp add: k)
  qed
  have nc: "\<forall>k < length (columns trimmed). \<not> column_all_null (records trimmed) k"
    using trimmed_column_not_null [of _ "dropna_rows t"]
    by (simp add: trimmed_def dropna_columns_def [of "dropna_rows t"])
  from d r c s nr nc show ?thesis
    unfolding Let_def t_def [symmetric] keep_def [symmetric] by blast
qed


theorem trim_drops_empty_witness:
  "\<exists>trimmed.
     display_table_from_sheet sample_to_string sample_astype_str sample_gappy_sheet ''KPI''
       = Inr (Dataframe trimmed)
     \<and> trimmed = \<lparr>columns = [''ID'', ''Value''],
                  records = [[Text ''x1'', Number 10], [Text ''x2'', Null]]\<rparr>
     \<and> (\<forall>r \<in> set (records trimmed). \<not> all_null r)
     \<and> (\<forall>k < length (columns trimmed). \<not> column_all_null (records trimmed) k)"
proof -
  have rect: "rectangular 3 sample_gappy_sheet" by code_simp
  have start: "find_table_start sample_to_string sample_gappy_sheet ''KPI'' = Some 0" by code_simp
  have len: "0 + 1 < length sample_gappy_sheet" by (simp add: sample_gappy_sheet_def)
  from trim_drops_empty [OF rect start len, of sample_astype_str]
  obtain trimmed where
    d: "display_table_from_sheet sample_to_string sample_astype_str sample_gappy_sheet ''KPI''
          = Inr (Dataframe trimmed)"
    and nr: "\<forall>r \<in> set (records trimmed). \<not> all_null r"
    and nc: "\<forall>k < length (columns trimmed). \<not> column_all_null (records trimmed) k"
    unfolding Let_def by blast
  have "display_table_from_sheet sample_to_string sample_astype_str sample_gappy_sheet ''KPI''
          = Inr (Dataframe \<lparr>columns = [''ID'', ''Value''],
                  records = [[Text ''x1'', Number 10], [Text ''x2'', Null]]\<rparr>)"
    by code_simp
  with d have "trimmed = \<lparr>columns = [''ID'', ''Value''],
                  records = [[Text ''x1'', Number 10], [Text ''x2'', Null]]\<rparr>"
    by simp
  with d nr nc show ?thesis by blast
qed

section \<open>Loading the workbook\<close>

lemma parse_sectors_result:
  "parse_sectors read_sheet xls acc names = Inr sector_data \<Longrightarrow>
     dom sector_data = dom acc \<union> set names
     \<and> (\<forall>n \<in> set names. \<exists>s. sheets xls n = Some s \<and> read_sheet None s = Inr (the (sector_data n)))
     \<and> (\<forall>n. n \<notin> set names \<longrightarrow> sector_data n = acc n)"
proof (induction names arbitrary: acc)
  case Nil
  then show ?case by simp
next
  case (Cons name rest)
  from Cons.prems obtain df where
    p: "xls_parse read_sheet xls name None = Inr df"
    and r: "parse_sectors read_sheet xls (acc(name \<mapsto> df)) rest = Inr sector_data"
    by (auto split: sum.splits)
  from p obtain s where s: "sheets xls name = Some s" "read_sheet None s = Inr df"
    by (auto simp: xls_parse_def split: option.splits)
  note ih = Cons.IH [OF r]
  have here: "\<exists>s. sheets xls name = Some s \<and> read_sheet None s = Inr (the (sector_data name))"
  proof (cases "name \<in> set rest")
    case True
    then show ?thesis using ih by blast
  next
    case False
    then have "sector_data name = Some df" using ih by simp
    then show ?thesis using s by simp
  qed
  have "dom sector_data = dom acc \<union> set (name # rest)"
    using ih by auto
  moreover have "\<forall>n \<in> set (name # rest). \<exists>s. sheets xls n = Some s \<and> read_sheet None s = Inr (the (sector_data n))"
    using ih here by simp
  moreover have "\<forall>n. n \<notin> set (name # rest) \<longrightarrow> sector_data n = acc n"
    using ih by simp
  ultimately show ?case by blast
qed

lemma messages_differ: "missing_sheet_message \<noteq> missing_file_message excel_path"
  by (simp add: missing_sheet_message_def missing_file_message_def)

text \<open>
  C7. A path that does not exist and a workbook without a sheet named
  \<^verbatim>\<open>Introduction\<close> are both reported, with different messages, both return
  \<^verbatim>\<open>(None, None)\<close>, and the caller stops on that pair. When sector data is returned,
  nothing was reported, the summary is the \<^verbatim>\<open>Introduction\<close> sheet read with
  \<^verbatim>\<open>header=0\<close>, and the keys of the dictionary are the sheet names other than
  \<^verbatim>\<open>Introduction\<close>, each mapped to its sheet read with \<^verbatim>\<open>header=None\<close>.
\<close>

theorem load_data_requires_introduction:
  "(\<not> path_exists excel_path \<longrightarrow>
      load_data path_exists excel_file_of read_sheet excel_path
        = Inr ([missing_file_message excel_path], None, None))
   \<and> (path_exists excel_path \<and> excel_file_of excel_path = Inr xls \<and> sheets xls ''Introduction'' = None \<longrightarrow>
      load_data path_exists excel_file_of read_sheet excel_path
        = Inr ([missing_sheet_message], None, None))
   \<and> missing_sheet_message \<noteq> missing_file_message excel_path
   \<and> main_stops df_empty (None, None) = Inr True
   \<and> (load_data path_exists excel_file_of read_sheet excel_path = Inr (messages, Some sector_data, summary) \<longrightarrow>
        (\<exists>xls intro summary_df.
           excel_file_of excel_path = Inr xls
           \<and> sheets xls ''Introduction'' = Some intro
           \<and> read_sheet (Some 0) intro = Inr summary_df \<and> summary = Some summary_df
           \<and> messages = []
           \<and> dom sector_data = set (sheet_names xls) - {''Introduction''}
           \<and> (\<forall>name \<in> dom sector_data.
                 \<exists>s. sheets xls name = Some s \<and> read_sheet None s = Inr (the (sector_data name)))))"
proof -
  have a: "\<not> path_exists excel_path \<longrightarrow>
      load_data path_exists excel_file_of read_sheet excel_path
        = Inr ([missing_file_message excel_path], None, None)"
    by (simp add: load_data_def)
  have b: "path_exists excel_path \<and> excel_file_of excel_path = Inr xls \<and> sheets xls ''Introduction'' = None \<longrightarrow>
      load_data path_exists excel_file_of read_sheet excel_path
        = Inr ([missing_sheet_message], None, None)"
    by (simp add: load_data_def xls_parse_def)
  have c: "main_stops df_empty (None, None) = Inr True"
    by (simp add: main_stops_def)
  have d: "\<exists>xls intro summary_df.
           excel_file_of excel_path = Inr xls
           \<and> sheets xls ''Introduction'' = Some intro
           \<and> read_sheet (Some 0) intro = Inr summary_df \<and> summary = Some summary_df
           \<and> messages = []
           \<and> dom sector_data = set (sheet_names xls) - {''Introduction''}
           \<and> (\<forall>name \<in> dom sector_data.
                 \<exists>s. sheets xls name = Some s \<and> read_sheet None s = Inr (the (sector_data name)))"
    if l: "load_data path_exists excel_file_of read_sheet excel_path = Inr (messages, Some sector_data, summary)"
  proof -
    from l have pe: "path_exists excel_path"
      by (auto simp: load_data_def split: if_splits)
    with l obtain xls where x: "excel_file_of excel_path = Inr xls"
      by (auto simp: load_data_def split: sum.splits)
    from l pe x obtain summary_df where
      i: "xls_parse read_sheet xls ''Introduction'' (Some 0) = Inr summary_df"
      by (auto simp: load_data_def split: sum.splits py_error.splits)
    from l pe x i have
      ps: "parse_sectors read_sheet xls Map.empty
             (filter (\<lambda>name. name \<noteq> ''Introduction'') (sheet_names xls)) = Inr sector_data"
      and m: "messages = []" and sm: "summary = Some summary_df"
      by (auto simp: load_data_def Let_def split: sum.splits)
    from i obtain intro where
      it: "sheets xls ''Introduction'' = Some intro" "read_sheet (Some 0) intro = Inr summary_df"
      by (auto simp: xls_parse_def split: option.splits)
    note r = parse_sectors_result [OF ps]
    have dm: "dom sector_data = set (sheet_names xls) - {''Introduction''}"
      using r by auto
    have "\<forall>name \<in> dom sector_data.
                 \<exists>s. sheets xls name = Some s \<and> read_sheet None s = Inr (the (sector_data name))"
      using r by auto
    with x it m sm dm show ?thesis by blast
  qed
  from a b c d messages_differ show ?thesis by blast
qed


theorem load_data_requires_introduction_witness:
  "load_data (\<lambda>p. p = ''report.xlsx'') (\<lambda>p. Inr sample_excel_file) sample_read_sheet ''other.xlsx''
     = Inr ([missing_file_message ''other.xlsx''], None, None)
   \<and> load_data (\<lambda>p. p = ''report.xlsx'')
        (\<lambda>p. Inr \<lparr>sheet_names = [''S1''], sheets = [''S1'' \<mapsto> ''first'']\<rparr>) sample_read_sheet ''report.xlsx''
     = Inr ([missing_sheet_message], None, None)
   \<and> (\<exists>sector_data.
        load_data (\<lambda>p. p = ''report.xlsx'') (\<lambda>p. Inr sample_excel_file) sample_read_sheet ''report.xlsx''
          = Inr ([], Some sector_data, Some (Some 0, ''index''))
        \<and> dom sector_data = {''S1'', ''S2''}
        \<and> sector_data ''S1'' = Some (None, ''first''))"
proof -
  let ?exists = "\<lambda>p. p = ''report.xlsx''"
  let ?small = "\<lparr>sheet_names = [''S1''], sheets = [''S1'' \<mapsto> ''first'']\<rparr>"
  let ?sd = "[''S1'' \<mapsto> (None :: nat option, ''first''), ''S2'' \<mapsto> (None, ''second'')]"
  have a: "load_data ?exists (\<lambda>p. Inr sample_excel_file) sample_read_sheet ''other.xlsx''
     = Inr ([missing_file_message ''other.xlsx''], None, None)"
    using load_data_requires_introduction [where path_exists = ?exists and excel_path = "''other.xlsx''"
        and excel_file_of = "\<lambda>p. Inr sample_excel_file" and read_sheet = sample_read_sheet,
        THEN conjunct1]
    by simp
  have b: "load_data ?exists (\<lambda>p. Inr ?small) sample_read_sheet ''report.xlsx''
     = Inr ([missing_sheet_message], None, None)"
    using load_data_requires_introduction [where path_exists = ?exists and excel_path = "''report.xlsx''"
        and excel_file_of = "\<lambda>p. Inr ?small" and read_sheet = sample_read_sheet and xls = ?small,
        THEN conjunct2, THEN conjunct1]
    by simp
  have l: "load_data ?exists (\<lambda>p. Inr sample_excel_file) sample_read_sheet ''report.xlsx''
          = Inr ([], Some ?sd, Some (Some 0, ''index''))"
    by (simp add: load_data_def sample_excel_file_def sample_read_sheet_def xls_parse_def)
  have "dom ?sd = set (sheet_names sample_excel_file) - {''Introduction''}"
    using l load_data_requires_introduction [where path_exists = ?exists and excel_path = "''report.xlsx''"
        and excel_file_of = "\<lambda>p. Inr sample_excel_file" and read_sheet = sample_read_sheet
        and messages = "[]" and sector_data = ?sd and summary = "Some (Some 0, ''index'')",
        THEN conjunct2, THEN conjunct2, THEN conjunct2, THEN conjunct2]
    by auto
  then have "dom ?sd = {''S1'', ''S2''}"
    by (auto simp: sample_excel_file_def)
  with a b l show ?thesis by auto
qed


end
